theory Spec2Isabelle
  imports Complex_Main
begin

section \<open>Images\<close>

text \<open>
  An image is a numpy array of shape (rows, cols, channels). The pixel payload is kept
  symbolic: either the all-zero canvas of \<^verbatim>\<open>np.zeros\<close> or an opaque buffer delivered by a
  capture device. Every \<^verbatim>\<open>cv2.putText\<close> call made on the array is recorded, in order, with
  all of its arguments.
\<close>

datatype pixel_data = Zeros | Captured nat

datatype font = FONT_HERSHEY_SIMPLEX

datatype line_type = LINE_8 | LINE_AA

datatype draw =
  PutText (caption: string) (org_x: int) (org_y: int) (font_face: font) (font_scale: rat)
    (colour: "nat \<times> nat \<times> nat") (thickness: nat) (line_kind: line_type)

record image =
  rows :: nat
  cols :: nat
  chans :: nat
  pixels :: pixel_data
  drawn :: "draw list"

definition zeros :: "nat \<Rightarrow> nat \<Rightarrow> nat \<Rightarrow> image" where
  "zeros r c k = \<lparr>rows = r, cols = c, chans = k, pixels = Zeros, drawn = []\<rparr>"

definition putText ::
  "image \<Rightarrow> string \<Rightarrow> int \<times> int \<Rightarrow> font \<Rightarrow> rat \<Rightarrow> nat \<times> nat \<times> nat \<Rightarrow> nat \<Rightarrow> line_type \<Rightarrow> image"
where
  "putText img t org fnt scale col thick lt =
     img\<lparr>drawn := drawn img @ [PutText t (fst org) (snd org) fnt scale col thick lt]\<rparr>"

text \<open>The spec's well-formed buffer: 640 wide, 480 high, 3 channels.\<close>

definition well_formed :: "image \<Rightarrow> bool" where
  "well_formed img \<longleftrightarrow> rows img = 480 \<and> cols img = 640 \<and> chans img = 3"

subsection \<open>Splitting a message into lines\<close>

text \<open>\<^verbatim>\<open>str.split('\n')\<close>: always at least one piece, the pieces hold no newline.\<close>

definition newline :: char where
  "newline = CHR 0x0A"

fun split_acc :: "string \<Rightarrow> string \<Rightarrow> string list" where
  "split_acc cur [] = [rev cur]"
| "split_acc cur (c # cs) =
     (if c = newline then rev cur # split_acc [] cs else split_acc (c # cur) cs)"

definition split_lines :: "string \<Rightarrow> string list" where
  "split_lines s = split_acc [] s"

subsection \<open>create_error_image\<close>

text \<open>
  The body of the \<^verbatim>\<open>for i, line in enumerate(...)\<close> loop, with the loop counter \<open>i\<close> and
  the running \<open>y\<close> as the source keeps them; \<^verbatim>\<open>break\<close> leaves the loop with the image so far.
\<close>

fun draw_lines :: "image \<Rightarrow> nat \<Rightarrow> int \<Rightarrow> string list \<Rightarrow> image" where
  "draw_lines img i y [] = img"
| "draw_lines img i y (line # rest) =
     (if i > 6 then img
      else draw_lines
             (putText img line (20, y) FONT_HERSHEY_SIMPLEX (7 / 10) (255, 255, 255) 1 LINE_AA)
             (i + 1) (y + 40) rest)"

definition create_error_image :: "string \<Rightarrow> image" where
  "create_error_image error_text = draw_lines (zeros 480 640 3) 0 50 (split_lines error_text)"

section \<open>The capture device and the session state\<close>

text \<open>
  Only exceptions derived from \<^verbatim>\<open>Exception\<close> are modelled; the payload is \<^verbatim>\<open>str(e)\<close>.
  Printing to standard output is left out.
\<close>

datatype exn = Exn (str: string)

text \<open>The value \<^verbatim>\<open>VideoCapture.get\<close> returns: a Python float.\<close>

datatype pyfloat = Finite rat | PosInf | NegInf | NaN

fun py_gt_one :: "pyfloat \<Rightarrow> bool" where
  "py_gt_one (Finite r) = (r > 1)"
| "py_gt_one PosInf = True"
| "py_gt_one NegInf = False"
| "py_gt_one NaN = False"

text \<open>\<^verbatim>\<open>int(x)\<close> truncates towards zero and raises on an infinity or a NaN.\<close>

fun py_int :: "pyfloat \<Rightarrow> exn + int" where
  "py_int (Finite r) = Inr (if r \<ge> 0 then \<lfloor>r\<rfloor> else \<lceil>r\<rceil>)"
| "py_int PosInf = Inl (Exn ''cannot convert float infinity to integer'')"
| "py_int NegInf = Inl (Exn ''cannot convert float infinity to integer'')"
| "py_int NaN = Inl (Exn ''cannot convert float NaN to integer'')"

type_synonym handle = nat

datatype backend = CAP_ANY | CAP_DSHOW

datatype cap_prop =
  CAP_PROP_FRAME_WIDTH | CAP_PROP_FRAME_HEIGHT | CAP_PROP_FPS | CAP_PROP_BUFFERSIZE

text \<open>
  Every call the program makes on the capture library is logged together with its outcome.
  A \<^verbatim>\<open>VideoCapture\<close> object is identified by the position of its constructor call in the
  log, so two objects never share an identity.
\<close>

datatype event =
  EvOpen handle nat backend "exn option"
| EvIsOpened handle "exn + bool"
| EvRead handle "exn + bool \<times> image option"
| EvSet handle cap_prop int "exn + bool"
| EvGet handle cap_prop "exn + pyfloat"
| EvRelease handle "exn option"

text \<open>
  The environment: the platform name and the capture library. Each device answer may
  depend on everything that happened before (the log), and each call may raise.
  The colour conversion is pure.
\<close>

record env =
  platform_system :: string
  dev_open :: "event list \<Rightarrow> nat \<Rightarrow> backend \<Rightarrow> exn option"
  dev_isOpened :: "event list \<Rightarrow> handle \<Rightarrow> exn + bool"
  dev_read :: "event list \<Rightarrow> handle \<Rightarrow> exn + bool \<times> image option"
  dev_set :: "event list \<Rightarrow> handle \<Rightarrow> cap_prop \<Rightarrow> int \<Rightarrow> exn + bool"
  dev_get :: "event list \<Rightarrow> handle \<Rightarrow> cap_prop \<Rightarrow> exn + pyfloat"
  dev_release :: "event list \<Rightarrow> handle \<Rightarrow> exn option"
  cvtColor_BGR2RGB :: "image \<Rightarrow> exn + image"

text \<open>The four module globals, and the log of device calls.\<close>

record state =
  camera :: "handle option"
  is_running :: bool
  last_frame :: image
  error_message :: "string option"
  trace :: "event list"

definition apostrophe :: char where
  "apostrophe = CHR 0x27"

definition initial_state :: state where
  "initial_state =
     \<lparr>camera = None, is_running = False,
      last_frame =
        putText (zeros 480 640 3)
          (''Press '' @ [apostrophe] @ ''Start Webcam'' @ [apostrophe] @ '' to begin'')
          (50, 240) FONT_HERSHEY_SIMPLEX (8 / 10) (255, 255, 255) 2 LINE_8,
      error_message = None, trace = []\<rparr>"

subsection \<open>Statements that may raise\<close>

type_synonym 'a prog = "state \<Rightarrow> (exn + 'a) \<times> state"

definition ret :: "'a \<Rightarrow> 'a prog" where
  "ret x = (\<lambda>s. (Inr x, s))"

definition raise :: "exn \<Rightarrow> 'a prog" where
  "raise e = (\<lambda>s. (Inl e, s))"

definition bnd :: "'a prog \<Rightarrow> ('a \<Rightarrow> 'b prog) \<Rightarrow> 'b prog" where
  "bnd m f = (\<lambda>s. case m s of (Inl e, s') \<Rightarrow> (Inl e, s') | (Inr x, s') \<Rightarrow> f x s')"

definition log :: "event \<Rightarrow> state \<Rightarrow> state" where
  "log ev s = s\<lparr>trace := trace s @ [ev]\<rparr>"

definition VideoCapture :: "env \<Rightarrow> nat \<Rightarrow> backend \<Rightarrow> handle prog" where
  "VideoCapture d i b = (\<lambda>s.
     let h = length (trace s); r = dev_open d (trace s) i b
     in (case r of Some e \<Rightarrow> Inl e | None \<Rightarrow> Inr h, log (EvOpen h i b r) s))"

definition isOpened :: "env \<Rightarrow> handle \<Rightarrow> bool prog" where
  "isOpened d h = (\<lambda>s. let r = dev_isOpened d (trace s) h in (r, log (EvIsOpened h r) s))"

definition read :: "env \<Rightarrow> handle \<Rightarrow> (bool \<times> image option) prog" where
  "read d h = (\<lambda>s. let r = dev_read d (trace s) h in (r, log (EvRead h r) s))"

definition set_prop :: "env \<Rightarrow> handle \<Rightarrow> cap_prop \<Rightarrow> int \<Rightarrow> bool prog" where
  "set_prop d h p v = (\<lambda>s. let r = dev_set d (trace s) h p v in (r, log (EvSet h p v r) s))"

definition get_prop :: "env \<Rightarrow> handle \<Rightarrow> cap_prop \<Rightarrow> pyfloat prog" where
  "get_prop d h p = (\<lambda>s. let r = dev_get d (trace s) h p in (r, log (EvGet h p r) s))"

definition release :: "env \<Rightarrow> handle \<Rightarrow> unit prog" where
  "release d h = (\<lambda>s.
     let r = dev_release d (trace s) h
     in (case r of Some e \<Rightarrow> Inl e | None \<Rightarrow> Inr (), log (EvRelease h r) s))"

definition backend_for :: "env \<Rightarrow> backend" where
  "backend_for d = (if platform_system d = ''Windows'' then CAP_DSHOW else CAP_ANY)"

section \<open>initialize_camera\<close>

definition no_camera_message :: string where
  "no_camera_message =
     ''No working camera found. Possible issues:'' @ [newline] @
     ''1. Camera is being used by another application'' @ [newline] @
     ''2. Camera drivers not installed'' @ [newline] @
     ''3. Camera permissions denied'' @ [newline] @
     ''4. No camera connected''"

text \<open>The four \<^verbatim>\<open>camera.set\<close> calls and the clearing of the message, after adoption.\<close>

definition configure :: "env \<Rightarrow> handle \<Rightarrow> bool prog" where
  "configure d h =
     bnd (set_prop d h CAP_PROP_FRAME_WIDTH 640) (\<lambda>_.
     bnd (set_prop d h CAP_PROP_FRAME_HEIGHT 480) (\<lambda>_.
     bnd (set_prop d h CAP_PROP_FPS 30) (\<lambda>_.
     bnd (set_prop d h CAP_PROP_BUFFERSIZE 1) (\<lambda>_.
     (\<lambda>s. (Inr True, s\<lparr>error_message := None\<rparr>))))))"

text \<open>
  The \<^verbatim>\<open>for camera_index in [0, 1, 2]\<close> loop. \<open>Inr True\<close> is the \<^verbatim>\<open>return True\<close> inside the
  loop, \<open>Inr False\<close> is the loop running to its end, \<open>Inl e\<close> an exception leaving it.
\<close>

fun probe :: "env \<Rightarrow> nat list \<Rightarrow> bool prog" where
  "probe d [] = ret False"
| "probe d (camera_index # rest) =
     bnd (VideoCapture d camera_index (backend_for d)) (\<lambda>test_camera.
     bnd (isOpened d test_camera) (\<lambda>opened.
       if opened then
         bnd (read d test_camera) (\<lambda>(ok, frame).
           if ok \<and> frame \<noteq> None then
             bnd (\<lambda>s. (Inr (), s\<lparr>camera := Some test_camera\<rparr>)) (\<lambda>_. configure d test_camera)
           else
             bnd (release d test_camera) (\<lambda>_. probe d rest))
       else
         bnd (release d test_camera) (\<lambda>_. probe d rest)))"

definition initialize_camera :: "env \<Rightarrow> bool prog" where
  "initialize_camera d = (\<lambda>s.
     case camera s of
       None \<Rightarrow>
         (case probe d [0, 1, 2] s of
            (Inl e, s') \<Rightarrow>
              (Inr False, s'\<lparr>error_message := Some (''Camera initialization error: '' @ str e)\<rparr>)
          | (Inr True, s') \<Rightarrow> (Inr True, s')
          | (Inr False, s') \<Rightarrow> (Inr False, s'\<lparr>error_message := Some no_camera_message\<rparr>))
     | Some h \<Rightarrow> isOpened d h s)"

section \<open>start_webcam, stop_webcam, get_webcam_frame\<close>

text \<open>\<^verbatim>\<open>error_message or "Camera initialization failed"\<close>: None and the empty string are falsy.\<close>

definition message_or_default :: "string option \<Rightarrow> string" where
  "message_or_default m =
     (case m of None \<Rightarrow> ''Camera initialization failed''
      | Some t \<Rightarrow> if t = [] then ''Camera initialization failed'' else t)"

text \<open>
  The statements under \<^verbatim>\<open>try\<close> in start_webcam. Reading from \<^verbatim>\<open>camera\<close> when it is None
  raises AttributeError.
\<close>

definition start_body :: "env \<Rightarrow> image prog" where
  "start_body d = (\<lambda>s.
     case camera s of
       None \<Rightarrow> (Inl (Exn (apostrophe # ''NoneType'' @ [apostrophe] @ '' object has no attribute ''
                        @ [apostrophe] @ ''read'' @ [apostrophe])), s)
     | Some h \<Rightarrow>
         bnd (read d h) (\<lambda>(ok, frame).
           if ok \<and> frame \<noteq> None then
             (case cvtColor_BGR2RGB d (the frame) of
                Inl e \<Rightarrow> raise e
              | Inr f \<Rightarrow> (\<lambda>s. (Inr f, s\<lparr>last_frame := f\<rparr>)))
           else ret (create_error_image ''Camera opened but cannot read frames'')) s)"

definition start_webcam :: "env \<Rightarrow> image prog" where
  "start_webcam d = (\<lambda>s.
     case initialize_camera d (s\<lparr>is_running := True\<rparr>) of
       (Inl e, s1) \<Rightarrow> (Inl e, s1)
     | (Inr False, s1) \<Rightarrow> (Inr (create_error_image (message_or_default (error_message s1))), s1)
     | (Inr True, s1) \<Rightarrow>
         (case start_body d s1 of
            (Inl e, s2) \<Rightarrow> (Inr (create_error_image (''Error reading from camera: '' @ str e)), s2)
          | (Inr img, s2) \<Rightarrow> (Inr img, s2)))"

text \<open>stop_webcam: the exception of \<^verbatim>\<open>camera.release()\<close> is caught, \<^verbatim>\<open>finally\<close> clears the handle.\<close>

definition stop_webcam :: "env \<Rightarrow> state \<Rightarrow> image \<times> state" where
  "stop_webcam d s =
     (let s1 = s\<lparr>is_running := False\<rparr>
      in case camera s1 of
           None \<Rightarrow> (last_frame s1, s1)
         | Some h \<Rightarrow>
             (let s2 = snd (release d h s1); s3 = s2\<lparr>camera := None\<rparr>
              in (last_frame s3, s3)))"

text \<open>\<^verbatim>\<open>for _ in range(n): camera.read()\<close>, the results thrown away.\<close>

fun drain :: "env \<Rightarrow> handle \<Rightarrow> nat \<Rightarrow> unit prog" where
  "drain d h 0 = ret ()"
| "drain d h (Suc n) = bnd (read d h) (\<lambda>_. drain d h n)"

text \<open>
  Lines 156 to 158: when the device reports a buffer depth above 1, the depth is asked for
  again and that many frames less one are read and thrown away.
\<close>

definition skip_buffered :: "env \<Rightarrow> handle \<Rightarrow> unit prog" where
  "skip_buffered d h =
     bnd (get_prop d h CAP_PROP_BUFFERSIZE) (\<lambda>depth.
       if py_gt_one depth then
         bnd (get_prop d h CAP_PROP_BUFFERSIZE) (\<lambda>depth2.
           case py_int depth2 of
             Inl e \<Rightarrow> raise e
           | Inr n \<Rightarrow> drain d h (nat (n - 1)))
       else ret ())"

text \<open>The statements under \<^verbatim>\<open>try\<close> in get_webcam_frame.\<close>

definition poll_body :: "env \<Rightarrow> handle \<Rightarrow> image prog" where
  "poll_body d h =
     bnd (skip_buffered d h) (\<lambda>_.
     bnd (read d h) (\<lambda>(ok, frame).
       if ok \<and> frame \<noteq> None then
         (case cvtColor_BGR2RGB d (the frame) of
            Inl e \<Rightarrow> raise e
          | Inr f \<Rightarrow> (\<lambda>s. (Inr f, s\<lparr>last_frame := f\<rparr>)))
       else ret (create_error_image ''Failed to read frame from camera'')))"

definition get_webcam_frame :: "env \<Rightarrow> state \<Rightarrow> image \<times> state" where
  "get_webcam_frame d s =
     (if \<not> is_running s then (last_frame s, s)
      else case camera s of
             None \<Rightarrow> (create_error_image ''Camera not initialized'', s)
           | Some h \<Rightarrow>
               (case poll_body d h s of
                  (Inl e, s') \<Rightarrow>
                    (create_error_image (''Error getting webcam frame: '' @ str e), s')
                | (Inr img, s') \<Rightarrow> (img, s')))"

section \<open>check_camera_permissions\<close>

text \<open>
  The \<^verbatim>\<open>for i in range(3)\<close> loop with the list \<open>available_cameras\<close> built so far; the
  release sits inside the \<^verbatim>\<open>if cap.isOpened()\<close> block.
\<close>

fun scan :: "env \<Rightarrow> nat list \<Rightarrow> nat list \<Rightarrow> (nat list) prog" where
  "scan d [] available_cameras = ret available_cameras"
| "scan d (i # rest) available_cameras =
     bnd (VideoCapture d i (backend_for d)) (\<lambda>cap.
     bnd (isOpened d cap) (\<lambda>opened.
       if opened then
         bnd (read d cap) (\<lambda>(ok, frame).
         bnd (release d cap) (\<lambda>_.
           scan d rest (if ok then available_cameras @ [i] else available_cameras)))
       else scan d rest available_cameras))"

definition check_camera_permissions :: "env \<Rightarrow> state \<Rightarrow> nat list \<times> state" where
  "check_camera_permissions d s =
     (case scan d [0, 1, 2] [] s of
        (Inl e, s') \<Rightarrow> ([], s')
      | (Inr available_cameras, s') \<Rightarrow> (available_cameras, s'))"

section \<open>The caller\<close>

text \<open>
  The user interface calls the three handlers in any order: the two buttons and the
  periodic refresh. A run collects what each call returned, an exception that leaves the
  handler included.
\<close>

datatype op = Start | Stop | Poll

fun step :: "env \<Rightarrow> op \<Rightarrow> state \<Rightarrow> (exn + image) \<times> state" where
  "step d Start s = start_webcam d s"
| "step d Stop s = (case stop_webcam d s of (img, s') \<Rightarrow> (Inr img, s'))"
| "step d Poll s = (case get_webcam_frame d s of (img, s') \<Rightarrow> (Inr img, s'))"

fun run :: "env \<Rightarrow> op list \<Rightarrow> state \<Rightarrow> (exn + image) list \<times> state" where
  "run d [] s = ([], s)"
| "run d (x # xs) s =
     (case step d x s of (r, s1) \<Rightarrow> (case run d xs s1 of (rs, s2) \<Rightarrow> (r # rs, s2)))"

text \<open>The call returned an image: it did not raise.\<close>

fun is_image :: "exn + image \<Rightarrow> bool" where
  "is_image (Inl e) = False"
| "is_image (Inr img) = True"

text \<open>
  Some start of the run is entered with a handle held on which isOpened raises: the call on
  the last line of initialize_camera, which no \<^verbatim>\<open>try\<close> encloses.
\<close>

fun held_isOpened_raises :: "env \<Rightarrow> op list \<Rightarrow> state \<Rightarrow> bool" where
  "held_isOpened_raises d [] s = False"
| "held_isOpened_raises d (x # xs) s =
     ((x = Start \<and> (case camera s of None \<Rightarrow> False | Some h \<Rightarrow> isl (dev_isOpened d (trace s) h))) \<or>
      held_isOpened_raises d xs (snd (step d x s)))"

section \<open>Classes of environments\<close>

text \<open>
  Every frame a read delivers is converted to a 640x480x3 image: the device honours the
  requested size.
\<close>

definition frames_well_formed :: "env \<Rightarrow> bool" where
  "frames_well_formed d \<longleftrightarrow>
     (\<forall>t h ok f g. dev_read d t h = Inr (ok, Some f) \<longrightarrow> cvtColor_BGR2RGB d f = Inr g \<longrightarrow>
        well_formed g)"

section \<open>Observations on the log\<close>

text \<open>The events a run added to the log.\<close>

definition new_events :: "state \<Rightarrow> state \<Rightarrow> event list" where
  "new_events s s' = drop (length (trace s)) (trace s')"

fun handle_of :: "event \<Rightarrow> handle" where
  "handle_of (EvOpen h i b r) = h"
| "handle_of (EvIsOpened h r) = h"
| "handle_of (EvRead h r) = h"
| "handle_of (EvSet h p v r) = h"
| "handle_of (EvGet h p r) = h"
| "handle_of (EvRelease h r) = h"

fun is_open_event :: "event \<Rightarrow> bool" where
  "is_open_event (EvOpen h i b r) = True"
| "is_open_event _ = False"

text \<open>The constructor calls of a log, in order: the object created and the index asked for.\<close>

fun probes :: "event list \<Rightarrow> (handle \<times> nat) list" where
  "probes [] = []"
| "probes (EvOpen h i b r # evs) = (h, i) # probes evs"
| "probes (_ # evs) = probes evs"

text \<open>The objects on which release was called.\<close>

fun releases :: "event list \<Rightarrow> handle list" where
  "releases [] = []"
| "releases (EvRelease h r # evs) = h # releases evs"
| "releases (_ # evs) = releases evs"

text \<open>The property settings requested on one object, in order.\<close>

fun config_applied :: "handle \<Rightarrow> event list \<Rightarrow> (cap_prop \<times> int) list" where
  "config_applied h [] = []"
| "config_applied h (EvSet h' p v r # evs) =
     (if h' = h then (p, v) # config_applied h evs else config_applied h evs)"
| "config_applied h (_ # evs) = config_applied h evs"

text \<open>The object reported itself open.\<close>

definition reported_open :: "handle \<Rightarrow> event list \<Rightarrow> bool" where
  "reported_open h evs \<longleftrightarrow> EvIsOpened h (Inr True) \<in> set evs"

text \<open>A read on the object returned success (the flag alone).\<close>

definition read_flag_ok :: "handle \<Rightarrow> event list \<Rightarrow> bool" where
  "read_flag_ok h evs \<longleftrightarrow> list_ex (\<lambda>ev. case ev of EvRead h' (Inr (True, fr)) \<Rightarrow> h' = h | _ \<Rightarrow> False) evs"

text \<open>A read on the object returned success together with a frame.\<close>

definition read_frame_ok :: "handle \<Rightarrow> event list \<Rightarrow> bool" where
  "read_frame_ok h evs \<longleftrightarrow>
     list_ex (\<lambda>ev. case ev of EvRead h' (Inr (True, Some f)) \<Rightarrow> h' = h | _ \<Rightarrow> False) evs"

text \<open>The object passed the probe of initialize_camera: it opened and its read gave a frame.\<close>

definition passed :: "handle \<Rightarrow> event list \<Rightarrow> bool" where
  "passed h evs \<longleftrightarrow> reported_open h evs \<and> read_frame_ok h evs"

text \<open>
  What the last read of a poll decides: the value the \<^verbatim>\<open>try\<close> block ends with and the
  last good frame afterwards.
\<close>

definition poll_outcome :: "env \<Rightarrow> image \<Rightarrow> bool \<times> image option \<Rightarrow> (exn + image) \<times> image" where
  "poll_outcome d lf x =
     (case x of (ok, fr) \<Rightarrow>
        if ok \<and> fr \<noteq> None then
          (case cvtColor_BGR2RGB d (the fr) of Inl e \<Rightarrow> (Inl e, lf) | Inr g \<Rightarrow> (Inr g, g))
        else (Inr (create_error_image ''Failed to read frame from camera''), lf))"

text \<open>The exception a call ended with, if it raised.\<close>

fun outcome_exn :: "event \<Rightarrow> exn option" where
  "outcome_exn (EvOpen h i b r) = r"
| "outcome_exn (EvIsOpened h r) = (case r of Inl e \<Rightarrow> Some e | Inr x \<Rightarrow> None)"
| "outcome_exn (EvRead h r) = (case r of Inl e \<Rightarrow> Some e | Inr x \<Rightarrow> None)"
| "outcome_exn (EvSet h p v r) = (case r of Inl e \<Rightarrow> Some e | Inr x \<Rightarrow> None)"
| "outcome_exn (EvGet h p r) = (case r of Inl e \<Rightarrow> Some e | Inr x \<Rightarrow> None)"
| "outcome_exn (EvRelease h r) = r"

text \<open>The first exception raised by a call of a log, if any call raised.\<close>

fun raised_by :: "event list \<Rightarrow> exn option" where
  "raised_by [] = None"
| "raised_by (ev # evs) = (case outcome_exn ev of Some e \<Rightarrow> Some e | None \<Rightarrow> raised_by evs)"

text \<open>A call that only asks the object \<open>h\<close> for a property or for a frame.\<close>

fun get_or_read :: "handle \<Rightarrow> event \<Rightarrow> bool" where
  "get_or_read h (EvGet h' p r) = (h' = h)"
| "get_or_read h (EvRead h' r) = (h' = h)"
| "get_or_read h _ = False"

section \<open>Sample environments\<close>

text \<open>The index an object was constructed with, read off the log.\<close>

fun opened_index :: "event list \<Rightarrow> handle \<Rightarrow> nat option" where
  "opened_index [] h = None"
| "opened_index (EvOpen h' i b r # evs) h = (if h' = h then Some i else opened_index evs h)"
| "opened_index (_ # evs) h = opened_index evs h"

definition sample_frame :: "nat \<Rightarrow> nat \<Rightarrow> nat \<Rightarrow> image" where
  "sample_frame r c n = \<lparr>rows = r, cols = c, chans = 3, pixels = Captured n, drawn = []\<rparr>"

text \<open>
  A well-behaved library: nothing raises, the devices at the indices in \<open>works\<close> open,
  reads are answered by \<open>rd\<close>, the buffer depth is reported as 1, and the colour
  conversion keeps the shape.
\<close>

definition sample_env ::
  "(nat \<Rightarrow> bool) \<Rightarrow> (event list \<Rightarrow> handle \<Rightarrow> exn + bool \<times> image option) \<Rightarrow> env"
where
  "sample_env works rd =
     \<lparr>platform_system = ''Linux'',
      dev_open = (\<lambda>t i b. None),
      dev_isOpened = (\<lambda>t h. Inr (case opened_index t h of Some i \<Rightarrow> works i | None \<Rightarrow> False)),
      dev_read = rd,
      dev_set = (\<lambda>t h p v. Inr True),
      dev_get = (\<lambda>t h p. Inr (Finite 1)),
      dev_release = (\<lambda>t h. None),
      cvtColor_BGR2RGB = (\<lambda>img. Inr img)\<rparr>"

text \<open>No camera at any index.\<close>

definition no_device :: env where
  "no_device = sample_env (\<lambda>i. False) (\<lambda>t h. Inr (False, None))"

text \<open>Index 0 does not open, index 1 delivers 640x480 frames.\<close>

definition second_device :: env where
  "second_device = sample_env (\<lambda>i. i = 1) (\<lambda>t h. Inr (True, Some (sample_frame 480 640 7)))"

text \<open>As \<open>second_device\<close>, but the constructor call for index 0 raises.\<close>

definition open_raises_device :: env where
  "open_raises_device =
     second_device\<lparr>dev_open := (\<lambda>t i b. if i = 0 then Some (Exn ''backend failure'') else None)\<rparr>"

text \<open>A state in which a handle is held and the session runs.\<close>

definition running_state :: state where
  "running_state = initial_state\<lparr>camera := Some 0, is_running := True\<rparr>"

text \<open>A device at index 0 whose third read fails and whose other reads succeed.\<close>

fun is_read_event :: "event \<Rightarrow> bool" where
  "is_read_event (EvRead h r) = True"
| "is_read_event _ = False"

definition flaky_device :: env where
  "flaky_device = sample_env (\<lambda>i. i = 0)
     (\<lambda>t h. if length (filter is_read_event t) = 2 then Inr (False, None)
            else Inr (True, Some (sample_frame 480 640 (length t))))"

definition flaky_started :: state where
  "flaky_started = snd (start_webcam flaky_device initial_state)"

definition flaky_failed :: state where
  "flaky_failed = snd (get_webcam_frame flaky_device flaky_started)"

text \<open>
  A device at index 0 that reports a buffer depth of 3 and whose fifth read fails: the
  first poll after a start skips two frames and then meets the failing read.
\<close>

definition buffered_device :: env where
  "buffered_device =
     (sample_env (\<lambda>i. i = 0)
        (\<lambda>t h. if length (filter is_read_event t) = 4 then Inr (False, None)
               else Inr (True, Some (sample_frame 480 640 (length t)))))
       \<lparr>dev_get := (\<lambda>t h p. Inr (Finite 3))\<rparr>"

definition buffered_started :: state where
  "buffered_started = snd (start_webcam buffered_device initial_state)"

definition buffered_skipped :: state where
  "buffered_skipped = snd (skip_buffered buffered_device 0 buffered_started)"

definition buffered_failed :: state where
  "buffered_failed = snd (get_webcam_frame buffered_device buffered_started)"

definition buffered_skipped_again :: state where
  "buffered_skipped_again = snd (skip_buffered buffered_device 0 buffered_failed)"

definition buffered_recovered :: state where
  "buffered_recovered = snd (get_webcam_frame buffered_device buffered_failed)"

text \<open>The state after a successful start on \<open>second_device\<close>.\<close>

definition second_started :: state where
  "second_started = snd (start_webcam second_device initial_state)"

text \<open>A device at index 0 that delivers 1280x720 frames, whatever was requested.\<close>

definition wide_device :: env where
  "wide_device = sample_env (\<lambda>i. i = 0) (\<lambda>t h. Inr (True, Some (sample_frame 720 1280 1)))"

text \<open>A device at index 0 on which every property setting raises.\<close>

definition set_raises_device :: env where
  "set_raises_device =
     (sample_env (\<lambda>i. i = 0) (\<lambda>t h. Inr (True, Some (sample_frame 480 640 7))))
       \<lparr>dev_set := (\<lambda>t h p v. Inl (Exn ''property not supported''))\<rparr>"

text \<open>
  A device at index 0 that is lost after a while: reads raise once the log holds 8 calls,
  the buffer depth is reported as infinite, and release raises.
\<close>

definition raising_device :: env where
  "raising_device =
     (sample_env (\<lambda>i. i = 0)
        (\<lambda>t h. if length t < 8 then Inr (True, Some (sample_frame 480 640 7))
               else Inl (Exn ''device lost'')))
       \<lparr>dev_release := (\<lambda>t h. Some (Exn ''release failed'')),
        dev_get := (\<lambda>t h p. Inr PosInf)\<rparr>"

text \<open>
  As \<open>second_device\<close>, but isOpened raises whenever it is asked right after a constructor
  call, which is when the probing loop asks.
\<close>

definition unsteady_device :: env where
  "unsteady_device =
     second_device
       \<lparr>dev_isOpened := (\<lambda>t h. if t \<noteq> [] \<and> is_open_event (last t) then Inl (Exn ''not ready'')
                               else Inr True)\<rparr>"

text \<open>
  A device at index 0 that answers isOpened during probing and raises on every later
  isOpened.
\<close>

definition unplugged_device :: env where
  "unplugged_device =
     (sample_env (\<lambda>i. i = 0) (\<lambda>t h. Inr (True, Some (sample_frame 480 640 7))))
       \<lparr>dev_isOpened := (\<lambda>t h. if length t \<le> 1 then Inr True else Inl (Exn ''device unplugged''))\<rparr>"

section \<open>Basic facts\<close>

lemma log_fields [simp]:
  "camera (log ev s) = camera s" "is_running (log ev s) = is_running s"
  "last_frame (log ev s) = last_frame s" "error_message (log ev s) = error_message s"
  "trace (log ev s) = trace s @ [ev]"
  by (simp_all add: log_def)

lemma release_snd: "snd (release d h s) = log (EvRelease h (dev_release d (trace s) h)) s"
  by (simp add: release_def Let_def)

lemmas call_defs = VideoCapture_def isOpened_def read_def set_prop_def get_prop_def release_def
  bnd_def ret_def raise_def Let_def

lemma new_events_append: "trace s' = trace s @ new \<Longrightarrow> new_events s s' = new"
  by (simp add: new_events_def)

lemma bnd_Inl: "m s = (Inl e, s1) \<Longrightarrow> bnd m f s = (Inl e, s1)"
  by (simp add: bnd_def)

lemma bnd_Inr: "m s = (Inr x, s1) \<Longrightarrow> bnd m f s = f x s1"
  by (simp add: bnd_def)

lemma bnd_assoc: "bnd (bnd m f) g = bnd m (\<lambda>x. bnd (f x) g)"
  by (auto simp: bnd_def fun_eq_iff split: prod.splits sum.splits)

lemma probes_append [simp]: "probes (a @ b) = probes a @ probes b"
  by (induction a rule: probes.induct) simp_all

lemma releases_append [simp]: "releases (a @ b) = releases a @ releases b"
  by (induction a rule: releases.induct) simp_all

lemma config_applied_append [simp]:
  "config_applied h (a @ b) = config_applied h a @ config_applied h b"
  by (induction h a rule: config_applied.induct) simp_all

lemma raised_by_append:
  "raised_by (a @ b) = (case raised_by a of Some e \<Rightarrow> Some e | None \<Rightarrow> raised_by b)"
  by (induction a) (simp_all split: option.splits)

lemma get_or_read_observed:
  "list_all (get_or_read h) evs \<Longrightarrow>
     probes evs = [] \<and> releases evs = [] \<and> config_applied h' evs = []"
proof (induction evs)
  case Nil
  show ?case by simp
next
  case (Cons ev evs)
  then show ?case by (cases ev) simp_all
qed

section \<open>The error image\<close>

lemma draw_lines_drawn:
  "draw_lines img i y ls =
     img\<lparr>drawn := drawn img @
        map (\<lambda>(k, l). PutText l 20 (y + 40 * (int k - int n)) FONT_HERSHEY_SIMPLEX (7 / 10)
                        (255, 255, 255) 1 LINE_AA)
            (enumerate n (take (7 - i) ls))\<rparr>"
proof (induction ls arbitrary: img i y n)
  case Nil
  show ?case by simp
next
  case (Cons l rest)
  show ?case
  proof (cases "i > 6")
    case True
    then show ?thesis by simp
  next
    case False
    then have t: "take (7 - i) (l # rest) = l # take (7 - (i + 1)) rest"
      by (cases "7 - i") (auto intro: arg_cong [where f = "\<lambda>n. take n rest"])
    have "\<And>k. y + 40 + 40 * (int k - int (Suc n)) = y + 40 * (int k - int n)" by simp
    then show ?thesis using False
      unfolding t by (simp add: Cons.IH [where n = "Suc n"] putText_def)
  qed
qed

text \<open>
  C9. create_error_image is a function of the message alone (it takes no state and no
  environment, so it cannot touch a device). For every message the result is the 480-row,
  640-column, 3-channel zero canvas on which line number i of the message (counting from 0)
  is written at x = 20, y = 50 + 40 i, font scale 0.7, white, thickness 1; only the first
  seven lines are written.
\<close>

theorem create_error_image_layout:
  "create_error_image msg =
     \<lparr>rows = 480, cols = 640, chans = 3, pixels = Zeros,
      drawn = map (\<lambda>(i, l). PutText l 20 (50 + 40 * int i) FONT_HERSHEY_SIMPLEX (7 / 10)
                        (255, 255, 255) 1 LINE_AA)
                  (enumerate 0 (take 7 (split_lines msg)))\<rparr>"
  unfolding create_error_image_def
  by (simp add: draw_lines_drawn [where n = 0] zeros_def)

section \<open>Stopping and polling\<close>

text \<open>
  C5. For every state and environment, polling right after stop returns the image stop
  returned and leaves the state, the log of device calls included, as stop left it; and a
  poll in a stopped state returns the last good frame and changes nothing, so it makes no
  device call.
\<close>

theorem stop_then_poll:
  "fst (get_webcam_frame d (snd (stop_webcam d s))) = fst (stop_webcam d s) \<and>
   snd (get_webcam_frame d (snd (stop_webcam d s))) = snd (stop_webcam d s) \<and>
   (\<not> is_running s \<longrightarrow> get_webcam_frame d s = (last_frame s, s))"
  by (simp add: get_webcam_frame_def stop_webcam_def Let_def release_snd split: option.splits)

theorem stop_then_poll_witness:
  "fst (get_webcam_frame second_device (snd (stop_webcam second_device running_state))) =
     last_frame initial_state \<and>
   \<not> is_running initial_state \<and>
   get_webcam_frame second_device initial_state = (last_frame initial_state, initial_state)"
  using stop_then_poll [of second_device running_state]
    stop_then_poll [of second_device initial_state]
  by (simp add: stop_webcam_def running_state_def initial_state_def Let_def release_snd)

text \<open>
  C10. For every state and environment, also when releasing the device raises, stop
  returns the last good frame and leaves no handle, a stopped session and the last good
  frame as it was; a second stop right after it returns the same image and changes nothing,
  so it makes no device call.
\<close>

theorem stop_webcam_clears:
  "fst (stop_webcam d s) = last_frame s \<and>
   camera (snd (stop_webcam d s)) = None \<and>
   \<not> is_running (snd (stop_webcam d s)) \<and>
   last_frame (snd (stop_webcam d s)) = last_frame s \<and>
   stop_webcam d (snd (stop_webcam d s)) = (last_frame s, snd (stop_webcam d s))"
  by (simp add: stop_webcam_def Let_def release_snd split: option.splits)

section \<open>Polling a running session\<close>

lemma drain_effect:
  "drain d h n s = (r, s') \<Longrightarrow>
     \<exists>new. s' = s\<lparr>trace := trace s @ new\<rparr> \<and> list_all (get_or_read h) new \<and>
       (case r of Inr u \<Rightarrow> True | Inl e \<Rightarrow> new \<noteq> [] \<and> last new = EvRead h (Inl e))"
proof (induction n arbitrary: s)
  case 0
  then show ?case by (auto simp: ret_def intro!: exI [where x = "[]"])
next
  case (Suc n)
  show ?case
  proof (cases "dev_read d (trace s) h")
    case (Inl e)
    with Suc.prems show ?thesis
      by (auto simp: call_defs log_def intro!: exI [where x = "[EvRead h (Inl e)]"])
  next
    case (Inr x)
    with Suc.prems have "drain d h n (log (EvRead h (Inr x)) s) = (r, s')"
      by (simp add: call_defs)
    from Suc.IH [OF this] obtain new where
      n: "s' = (log (EvRead h (Inr x)) s)\<lparr>trace := trace (log (EvRead h (Inr x)) s) @ new\<rparr>"
        "list_all (get_or_read h) new"
        "case r of Inr u \<Rightarrow> True | Inl e \<Rightarrow> new \<noteq> [] \<and> last new = EvRead h (Inl e)"
      by blast
    show ?thesis
      using n by (intro exI [where x = "EvRead h (Inr x) # new"]) (auto simp: log_def split: sum.splits)
  qed
qed

lemma skip_buffered_effect:
  assumes "skip_buffered d h s = (r, s')"
  shows "\<exists>new. s' = s\<lparr>trace := trace s @ new\<rparr> \<and> new \<noteq> [] \<and> list_all (get_or_read h) new \<and>
           (case r of Inr u \<Rightarrow> True | Inl e \<Rightarrow> (\<forall>x. last new \<noteq> EvRead h (Inr x)))"
proof (cases "dev_get d (trace s) h CAP_PROP_BUFFERSIZE")
  case (Inl e)
  with assms show ?thesis
    by (auto simp: skip_buffered_def call_defs log_def
        intro!: exI [where x = "[EvGet h CAP_PROP_BUFFERSIZE (Inl e)]"])
next
  case g1: (Inr depth)
  let ?e1 = "EvGet h CAP_PROP_BUFFERSIZE (Inr depth)"
  show ?thesis
  proof (cases "py_gt_one depth")
    case False
    with assms g1 show ?thesis
      by (auto simp: skip_buffered_def call_defs log_def intro!: exI [where x = "[?e1]"])
  next
    case True
    show ?thesis
    proof (cases "dev_get d (trace s @ [?e1]) h CAP_PROP_BUFFERSIZE")
      case (Inl e)
      with assms g1 True show ?thesis
        by (auto simp: skip_buffered_def call_defs log_def
            intro!: exI [where x = "[?e1, EvGet h CAP_PROP_BUFFERSIZE (Inl e)]"])
    next
      case g2: (Inr depth2)
      let ?e2 = "EvGet h CAP_PROP_BUFFERSIZE (Inr depth2)"
      show ?thesis
      proof (cases "py_int depth2")
        case (Inl e)
        with assms g1 g2 True show ?thesis
          by (auto simp: skip_buffered_def call_defs log_def intro!: exI [where x = "[?e1, ?e2]"])
      next
        case (Inr n)
        with assms g1 g2 True
        have "drain d h (nat (n - 1)) (log ?e2 (log ?e1 s)) = (r, s')"
          by (simp add: skip_buffered_def call_defs)
        from drain_effect [OF this] obtain new where
          n: "s' = (log ?e2 (log ?e1 s))\<lparr>trace := trace (log ?e2 (log ?e1 s)) @ new\<rparr>"
          "list_all (get_or_read h) new"
          "case r of Inr u \<Rightarrow> True | Inl e \<Rightarrow> new \<noteq> [] \<and> last new = EvRead h (Inl e)"
          by blast
        show ?thesis
          using n by (intro exI [where x = "?e1 # ?e2 # new"])
            (auto simp: log_def split: sum.splits)
      qed
    qed
  qed
qed

lemma poll_body_effect:
  assumes "poll_body d h s = (r, s')"
  shows "\<exists>new lf. s' = s\<lparr>trace := trace s @ new, last_frame := lf\<rparr> \<and> new \<noteq> [] \<and>
       list_all (get_or_read h) new \<and>
       ((\<exists>x. last new = EvRead h (Inr x) \<and> (\<exists>t. dev_read d t h = Inr x) \<and>
             (r, lf) = poll_outcome d (last_frame s) x) \<or>
        ((\<forall>x. last new \<noteq> EvRead h (Inr x)) \<and> (\<exists>e. r = Inl e) \<and> lf = last_frame s))"
proof -
  obtain r1 s1 where p: "skip_buffered d h s = (r1, s1)" by (cases "skip_buffered d h s")
  from skip_buffered_effect [OF p] obtain new where
    n: "s1 = s\<lparr>trace := trace s @ new\<rparr>" "new \<noteq> []" "list_all (get_or_read h) new"
       "case r1 of Inr u \<Rightarrow> True | Inl e \<Rightarrow> (\<forall>x. last new \<noteq> EvRead h (Inr x))"
    by blast
  show ?thesis
  proof (cases r1)
    case (Inl e)
    with assms p have "r = Inl e" "s' = s1"
      unfolding poll_body_def by (simp_all add: bnd_Inl)
    with n Inl show ?thesis
      by (intro exI [where x = new] exI [where x = "last_frame s"]) auto
  next
    case (Inr u)
    show ?thesis
    proof (cases "dev_read d (trace s1) h")
      case (Inl e)
      with assms p Inr have "r = Inl e" "s' = log (EvRead h (Inl e)) s1"
        unfolding poll_body_def by (simp_all add: bnd_Inr read_def Let_def bnd_Inl)
      with n show ?thesis
        by (intro exI [where x = "new @ [EvRead h (Inl e)]"] exI [where x = "last_frame s"])
          (auto simp: log_def)
    next
      case rd: (Inr x)
      obtain ok fr where x: "x = (ok, fr)" by (cases x)
      let ?lf = "snd (poll_outcome d (last_frame s) x)"
      from assms p Inr rd x
      have "r = fst (poll_outcome d (last_frame s) x)"
        "s' = (log (EvRead h (Inr x)) s1)\<lparr>last_frame := ?lf\<rparr>"
        unfolding poll_body_def
        by (auto simp: bnd_Inr read_def Let_def poll_outcome_def ret_def raise_def n(1) log_def
            split: sum.splits)
      with n rd show ?thesis
        by (intro exI [where x = "new @ [EvRead h (Inr x)]"] exI [where x = ?lf])
          (auto simp: log_def)
    qed
  qed
qed

lemma poll_running_effect:
  assumes "is_running s" "camera s = Some h" "get_webcam_frame d s = (img, s')"
  shows "\<exists>new lf r. s' = s\<lparr>trace := trace s @ new, last_frame := lf\<rparr> \<and> new \<noteq> [] \<and>
       list_all (get_or_read h) new \<and>
       img = (case r of Inl e \<Rightarrow> create_error_image (''Error getting webcam frame: '' @ str e)
              | Inr i \<Rightarrow> i) \<and>
       ((\<exists>x. last new = EvRead h (Inr x) \<and> (\<exists>t. dev_read d t h = Inr x) \<and>
             (r, lf) = poll_outcome d (last_frame s) x) \<or>
        ((\<forall>x. last new \<noteq> EvRead h (Inr x)) \<and> (\<exists>e. r = Inl e) \<and> lf = last_frame s))"
proof -
  obtain r s1 where p: "poll_body d h s = (r, s1)" by (cases "poll_body d h s")
  with assms have "s' = s1"
    "img = (case r of Inl e \<Rightarrow> create_error_image (''Error getting webcam frame: '' @ str e)
              | Inr i \<Rightarrow> i)"
    by (auto simp: get_webcam_frame_def split: sum.splits)
  with poll_body_effect [OF p] show ?thesis by blast
qed

lemma poll_after_skip:
  assumes "is_running s" "camera s = Some h"
    and "skip_buffered d h s = (Inr (), sa)" and "dev_read d (trace sa) h = Inr x"
  shows "get_webcam_frame d s =
           (case fst (poll_outcome d (last_frame sa) x) of
              Inl e \<Rightarrow> create_error_image (''Error getting webcam frame: '' @ str e)
            | Inr img \<Rightarrow> img,
            (log (EvRead h (Inr x)) sa)\<lparr>last_frame := snd (poll_outcome d (last_frame sa) x)\<rparr>)"
  using assms
  by (cases x)
    (auto simp: get_webcam_frame_def poll_body_def bnd_Inr read_def Let_def poll_outcome_def
      ret_def raise_def bnd_def log_def split: sum.splits)

text \<open>
  C7. In a running session that holds the handle h, take a poll whose skipping of buffered
  frames ends in the state sa and whose read of the frame, made there, reports failure (the
  flag is false or there is no frame). That poll returns the "Failed to read frame from
  camera" image, and the state it leaves is sa with the failed read logged: the handle, the
  last good frame, the running flag and the error message are as they were, and every device
  call the poll made is a get or a read on h, so nothing was released, opened or configured.
  If the read of the frame of the next poll delivers a frame f whose colour conversion is g,
  that poll returns g, makes g the last good frame, and again only asks h for properties and
  frames, the handle still held.
\<close>

theorem poll_read_failure_then_recovery:
  assumes run: "is_running s" and cam: "camera s = Some h"
    and skip1: "skip_buffered d h s = (Inr (), sa)"
    and fail: "dev_read d (trace sa) h = Inr (ok, fr)" "\<not> (ok \<and> fr \<noteq> None)"
    and skip2: "skip_buffered d h (log (EvRead h (Inr (ok, fr))) sa) = (Inr (), sb)"
    and good: "dev_read d (trace sb) h = Inr (True, Some f)"
    and cvt: "cvtColor_BGR2RGB d f = Inr g"
  shows "get_webcam_frame d s =
           (create_error_image ''Failed to read frame from camera'',
            log (EvRead h (Inr (ok, fr))) sa) \<and>
         get_webcam_frame d (snd (get_webcam_frame d s)) =
           (g, (log (EvRead h (Inr (True, Some f))) sb)\<lparr>last_frame := g\<rparr>) \<and>
         (let s1 = snd (get_webcam_frame d s); s2 = snd (get_webcam_frame d s1)
          in camera s1 = Some h \<and> last_frame s1 = last_frame s \<and> is_running s1 \<and>
             error_message s1 = error_message s \<and>
             trace s1 = trace s @ new_events s s1 \<and>
             list_all (get_or_read h) (new_events s s1) \<and>
             releases (new_events s s1) = [] \<and> probes (new_events s s1) = [] \<and>
             camera s2 = Some h \<and> last_frame s2 = g \<and> is_running s2 \<and>
             error_message s2 = error_message s \<and>
             trace s2 = trace s1 @ new_events s1 s2 \<and>
             list_all (get_or_read h) (new_events s1 s2) \<and>
             releases (new_events s1 s2) = [] \<and> probes (new_events s1 s2) = [])"
proof -
  let ?s1 = "log (EvRead h (Inr (ok, fr))) sa"
  let ?s2 = "(log (EvRead h (Inr (True, Some f))) sb)\<lparr>last_frame := g\<rparr>"
  from skip_buffered_effect [OF skip1] obtain n1 where
    n1: "sa = s\<lparr>trace := trace s @ n1\<rparr>" "list_all (get_or_read h) n1" by auto
  have p1: "get_webcam_frame d s =
      (create_error_image ''Failed to read frame from camera'', ?s1)"
    using poll_after_skip [OF run cam skip1 fail(1)] fail(2) n1(1)
    by (auto simp: poll_outcome_def log_def)
  have t1: "trace ?s1 = trace s @ (n1 @ [EvRead h (Inr (ok, fr))])"
    using n1(1) by simp
  have f1: "camera ?s1 = Some h" "is_running ?s1" "last_frame ?s1 = last_frame s"
    "error_message ?s1 = error_message s"
    using n1(1) run cam by simp_all
  from skip_buffered_effect [OF skip2] obtain n2 where
    n2: "sb = ?s1\<lparr>trace := trace ?s1 @ n2\<rparr>" "list_all (get_or_read h) n2" by auto
  have p2: "get_webcam_frame d ?s1 = (g, ?s2)"
    using poll_after_skip [OF f1(2) f1(1) skip2 good] cvt
    by (simp add: poll_outcome_def)
  have t2: "trace ?s2 = trace ?s1 @ (n2 @ [EvRead h (Inr (True, Some f))])"
    by (subst n2(1)) (simp add: log_def)
  have f2: "camera ?s2 = Some h" "is_running ?s2" "last_frame ?s2 = g"
    "error_message ?s2 = error_message s"
    using f1 by (subst n2(1), simp add: log_def)+
  have o1: "list_all (get_or_read h) (n1 @ [EvRead h (Inr (ok, fr))])"
    using n1(2) by simp
  have o2: "list_all (get_or_read h) (n2 @ [EvRead h (Inr (True, Some f))])"
    using n2(2) by simp
  show ?thesis
    unfolding p1 snd_conv p2 Let_def new_events_append [OF t1] new_events_append [OF t2]
    using f1 f2 t1 t2 o1 o2 get_or_read_observed [OF o1] get_or_read_observed [OF o2]
    by simp
qed

theorem poll_read_failure_then_recovery_witness:
  "is_running buffered_started \<and> camera buffered_started = Some 0 \<and>
   skip_buffered buffered_device 0 buffered_started = (Inr (), buffered_skipped) \<and>
   dev_read buffered_device (trace buffered_skipped) 0 = Inr (False, None) \<and>
   skip_buffered buffered_device 0 buffered_failed = (Inr (), buffered_skipped_again) \<and>
   dev_read buffered_device (trace buffered_skipped_again) 0 =
     Inr (True, Some (sample_frame 480 640 17)) \<and>
   get_webcam_frame buffered_device buffered_started =
     (create_error_image ''Failed to read frame from camera'', buffered_failed) \<and>
   new_events buffered_started buffered_failed =
     [EvGet 0 CAP_PROP_BUFFERSIZE (Inr (Finite 3)), EvGet 0 CAP_PROP_BUFFERSIZE (Inr (Finite 3)),
      EvRead 0 (Inr (True, Some (sample_frame 480 640 10))),
      EvRead 0 (Inr (True, Some (sample_frame 480 640 11))),
      EvRead 0 (Inr (False, None))] \<and>
   camera buffered_failed = Some 0 \<and>
   last_frame buffered_failed = last_frame buffered_started \<and>
   releases (new_events buffered_started buffered_failed) = [] \<and>
   fst (get_webcam_frame buffered_device buffered_failed) = sample_frame 480 640 17 \<and>
   last_frame buffered_recovered = sample_frame 480 640 17 \<and>
   camera buffered_recovered = Some 0 \<and>
   releases (new_events buffered_failed buffered_recovered) = []"
proof -
  have h1: "is_running buffered_started" by code_simp
  have h2: "camera buffered_started = Some 0" by code_simp
  have "fst (skip_buffered buffered_device 0 buffered_started) = Inr ()" by code_simp
  then have h3: "skip_buffered buffered_device 0 buffered_started = (Inr (), buffered_skipped)"
    by (simp add: buffered_skipped_def prod_eq_iff)
  have h4: "dev_read buffered_device (trace buffered_skipped) 0 = Inr (False, None)"
    by code_simp
  have h5: "\<not> (False \<and> (None :: image option) \<noteq> None)" by simp
  have e1: "new_events buffered_started buffered_failed =
     [EvGet 0 CAP_PROP_BUFFERSIZE (Inr (Finite 3)), EvGet 0 CAP_PROP_BUFFERSIZE (Inr (Finite 3)),
      EvRead 0 (Inr (True, Some (sample_frame 480 640 10))),
      EvRead 0 (Inr (True, Some (sample_frame 480 640 11))),
      EvRead 0 (Inr (False, None))]"
    by code_simp
  have l: "log (EvRead 0 (Inr (False, None))) buffered_skipped = buffered_failed"
    by code_simp
  have "fst (skip_buffered buffered_device 0 buffered_failed) = Inr ()" by code_simp
  then have h6: "skip_buffered buffered_device 0 buffered_failed = (Inr (), buffered_skipped_again)"
    by (simp add: buffered_skipped_again_def prod_eq_iff)
  have h7: "dev_read buffered_device (trace buffered_skipped_again) 0 =
     Inr (True, Some (sample_frame 480 640 17))"
    by code_simp
  have h8: "cvtColor_BGR2RGB buffered_device (sample_frame 480 640 17) =
      Inr (sample_frame 480 640 17)"
    by (simp add: buffered_device_def sample_env_def)
  note c = poll_read_failure_then_recovery [OF h1 h2 h3 h4 h5 h6 [folded l] h7 h8]
  note c1 = c [THEN conjunct1, unfolded l]
  from c [THEN conjunct2, THEN conjunct1, folded buffered_failed_def]
  have c2: "fst (get_webcam_frame buffered_device buffered_failed) = sample_frame 480 640 17"
    by (simp only: fst_conv)
  note c3 = c [THEN conjunct2, THEN conjunct2, unfolded Let_def, folded buffered_failed_def,
      folded buffered_recovered_def]
  from c3 have k1: "camera buffered_failed = Some 0" by (rule conjunct1)
  from c3 have k2: "last_frame buffered_failed = last_frame buffered_started" by blast
  from c3 have k3: "releases (new_events buffered_started buffered_failed) = []" by blast
  from c3 have k4: "last_frame buffered_recovered = sample_frame 480 640 17" by blast
  from c3 have k5: "camera buffered_recovered = Some 0" by blast
  from c3 have k6: "releases (new_events buffered_failed buffered_recovered) = []" by blast
  show ?thesis
    by (intro conjI) (rule h1 h2 h3 h4 h6 h7 c1 e1 k1 k2 k3 c2 k4 k5 k6)+
qed

section \<open>Starting twice\<close>

text \<open>
  C6. For every state that holds a handle h and every environment, start keeps h as the
  handle and constructs no capture object: the calls it adds to the log contain no open, no
  release and no property setting, so acquisition is skipped.
\<close>

theorem start_with_handle_held:
  assumes "camera s = Some h"
  shows "camera (snd (start_webcam d s)) = Some h \<and>
         trace (snd (start_webcam d s)) = trace s @ new_events s (snd (start_webcam d s)) \<and>
         probes (new_events s (snd (start_webcam d s))) = [] \<and>
         releases (new_events s (snd (start_webcam d s))) = [] \<and>
         (\<forall>h'. config_applied h' (new_events s (snd (start_webcam d s))) = [])"
  using assms
  by (auto simp: start_webcam_def initialize_camera_def start_body_def call_defs new_events_def
      split: sum.splits prod.splits option.splits bool.splits if_splits)

theorem start_with_handle_held_witness:
  "camera second_started = Some 3 \<and>
   camera (snd (start_webcam second_device second_started)) = Some 3 \<and>
   probes (new_events second_started (snd (start_webcam second_device second_started))) = [] \<and>
   new_events second_started (snd (start_webcam second_device second_started)) =
     [EvIsOpened 3 (Inr True), EvRead 3 (Inr (True, Some (sample_frame 480 640 7)))]"
proof -
  have h: "camera second_started = Some 3" by code_simp
  have n: "new_events second_started (snd (start_webcam second_device second_started)) =
     [EvIsOpened 3 (Inr True), EvRead 3 (Inr (True, Some (sample_frame 480 640 7)))]"
    by code_simp
  from start_with_handle_held [OF h, of second_device] h n show ?thesis by simp
qed

section \<open>Acquisition, one candidate at a time\<close>

lemma configure_cases:
  assumes "configure d h s = (r, s')"
  obtains
    (configured) b1 b2 b3 b4 where "r = Inr True"
      "s' = s\<lparr>trace := trace s @
               [EvSet h CAP_PROP_FRAME_WIDTH 640 (Inr b1), EvSet h CAP_PROP_FRAME_HEIGHT 480 (Inr b2),
                EvSet h CAP_PROP_FPS 30 (Inr b3), EvSet h CAP_PROP_BUFFERSIZE 1 (Inr b4)],
             error_message := None\<rparr>"
  | (set_raised) e new where "r = Inl e" "s' = s\<lparr>trace := trace s @ new\<rparr>"
      "raised_by new = Some e" "probes new = []"
proof (cases "dev_set d (trace s) h CAP_PROP_FRAME_WIDTH 640")
  case (Inl e)
  with assms have "r = Inl e"
    "s' = s\<lparr>trace := trace s @ [EvSet h CAP_PROP_FRAME_WIDTH 640 (Inl e)]\<rparr>"
    by (auto simp: configure_def call_defs log_def)
  then show ?thesis by (rule set_raised) simp_all
next
  case r1: (Inr b1)
  let ?e1 = "EvSet h CAP_PROP_FRAME_WIDTH 640 (Inr b1)"
  show ?thesis
  proof (cases "dev_set d (trace s @ [?e1]) h CAP_PROP_FRAME_HEIGHT 480")
    case (Inl e)
    with assms r1 have "r = Inl e"
      "s' = s\<lparr>trace := trace s @ [?e1, EvSet h CAP_PROP_FRAME_HEIGHT 480 (Inl e)]\<rparr>"
      by (auto simp: configure_def call_defs log_def)
    then show ?thesis by (rule set_raised) simp_all
  next
    case r2: (Inr b2)
    let ?e2 = "EvSet h CAP_PROP_FRAME_HEIGHT 480 (Inr b2)"
    show ?thesis
    proof (cases "dev_set d (trace s @ [?e1, ?e2]) h CAP_PROP_FPS 30")
      case (Inl e)
      with assms r1 r2 have "r = Inl e"
        "s' = s\<lparr>trace := trace s @ [?e1, ?e2, EvSet h CAP_PROP_FPS 30 (Inl e)]\<rparr>"
        by (auto simp: configure_def call_defs log_def)
      then show ?thesis by (rule set_raised) simp_all
    next
      case r3: (Inr b3)
      let ?e3 = "EvSet h CAP_PROP_FPS 30 (Inr b3)"
      show ?thesis
      proof (cases "dev_set d (trace s @ [?e1, ?e2, ?e3]) h CAP_PROP_BUFFERSIZE 1")
        case (Inl e)
        with assms r1 r2 r3 have "r = Inl e"
          "s' = s\<lparr>trace := trace s @ [?e1, ?e2, ?e3, EvSet h CAP_PROP_BUFFERSIZE 1 (Inl e)]\<rparr>"
          by (auto simp: configure_def call_defs log_def)
        then show ?thesis by (rule set_raised) simp_all
      next
        case r4: (Inr b4)
        with assms r1 r2 r3 have "r = Inr True"
          "s' = s\<lparr>trace := trace s @ [?e1, ?e2, ?e3, EvSet h CAP_PROP_BUFFERSIZE 1 (Inr b4)],
             error_message := None\<rparr>"
          by (auto simp: configure_def call_defs log_def)
        then show ?thesis by (rule configured)
      qed
    qed
  qed
qed

lemma probe_Cons_cases:
  assumes "probe d (i # rest) s = (r, s')"
  obtains
    (raised) e new where "r = Inl e" "s' = s\<lparr>trace := trace s @ new\<rparr>"
      "raised_by new = Some e" "probes new = [(length (trace s), i)]"
  | (adopted) f where
      "configure d (length (trace s))
         (s\<lparr>trace := trace s @
              [EvOpen (length (trace s)) i (backend_for d) None,
               EvIsOpened (length (trace s)) (Inr True),
               EvRead (length (trace s)) (Inr (True, Some f))],
            camera := Some (length (trace s))\<rparr>) = (r, s')"
  | (closed)
      "probe d rest
         (s\<lparr>trace := trace s @
              [EvOpen (length (trace s)) i (backend_for d) None,
               EvIsOpened (length (trace s)) (Inr False),
               EvRelease (length (trace s)) None]\<rparr>) = (r, s')"
  | (unreadable) ok fr where "\<not> (ok \<and> fr \<noteq> None)"
      "probe d rest
         (s\<lparr>trace := trace s @
              [EvOpen (length (trace s)) i (backend_for d) None,
               EvIsOpened (length (trace s)) (Inr True),
               EvRead (length (trace s)) (Inr (ok, fr)),
               EvRelease (length (trace s)) None]\<rparr>) = (r, s')"
proof -
  let ?h = "length (trace s)"
  let ?b = "backend_for d"
  show ?thesis
  proof (cases "dev_open d (trace s) i ?b")
    case (Some e)
    with assms have "r = Inl e" "s' = s\<lparr>trace := trace s @ [EvOpen ?h i ?b (Some e)]\<rparr>"
      by (auto simp: call_defs log_def)
    then show ?thesis by (rule raised) simp_all
  next
    case None
    let ?e1 = "EvOpen ?h i ?b None"
    show ?thesis
    proof (cases "dev_isOpened d (trace s @ [?e1]) ?h")
      case (Inl e)
      with assms None have "r = Inl e"
        "s' = s\<lparr>trace := trace s @ [?e1, EvIsOpened ?h (Inl e)]\<rparr>"
        by (auto simp: call_defs log_def)
      then show ?thesis by (rule raised) simp_all
    next
      case op: (Inr opened)
      show ?thesis
      proof (cases opened)
        case False
        let ?t = "trace s @ [?e1, EvIsOpened ?h (Inr False)]"
        show ?thesis
        proof (cases "dev_release d ?t ?h")
          case (Some e)
          with assms None op False have "r = Inl e"
            "s' = s\<lparr>trace := trace s @ [?e1, EvIsOpened ?h (Inr False), EvRelease ?h (Some e)]\<rparr>"
            by (auto simp: call_defs log_def)
          then show ?thesis by (rule raised) simp_all
        next
          case rel: None
          with assms None op False show ?thesis
            by (intro closed) (simp add: call_defs log_def)
        qed
      next
        case True
        let ?e2 = "EvIsOpened ?h (Inr True)"
        show ?thesis
        proof (cases "dev_read d (trace s @ [?e1, ?e2]) ?h")
          case (Inl e)
          with assms None op True have "r = Inl e"
            "s' = s\<lparr>trace := trace s @ [?e1, ?e2, EvRead ?h (Inl e)]\<rparr>"
            by (auto simp: call_defs log_def)
          then show ?thesis by (rule raised) simp_all
        next
          case rd: (Inr x)
          obtain ok fr where x: "x = (ok, fr)" by (cases x)
          show ?thesis
          proof (cases "ok \<and> fr \<noteq> None")
            case good: True
            then obtain f where f: "ok" "fr = Some f" by auto
            with assms None op True rd x show ?thesis
              by (intro adopted [of f]) (simp add: call_defs log_def)
          next
            case bad: False
            let ?t = "trace s @ [?e1, ?e2, EvRead ?h (Inr (ok, fr))]"
            show ?thesis
            proof (cases "dev_release d ?t ?h")
              case (Some e)
              with assms None op True rd x bad have "r = Inl e"
                "s' = s\<lparr>trace := trace s @
                   [?e1, ?e2, EvRead ?h (Inr (ok, fr)), EvRelease ?h (Some e)]\<rparr>"
                by (auto simp: call_defs log_def)
              then show ?thesis by (rule raised) simp_all
            next
              case rel: None
              with assms None op True rd x bad show ?thesis
                by (intro unreadable [of ok fr]) (auto simp: call_defs log_def)
            qed
          qed
        qed
      qed
    qed
  qed
qed

lemma probe_fields:
  "probe d idxs s = (r, s') \<Longrightarrow>
     is_running s' = is_running s \<and> last_frame s' = last_frame s \<and>
     (r = Inr True \<longrightarrow> error_message s' = None \<and> camera s' \<noteq> None) \<and>
     (r \<noteq> Inr True \<longrightarrow> error_message s' = error_message s) \<and>
     (r = Inr False \<longrightarrow> camera s' = camera s)"
proof (induction idxs arbitrary: s)
  case Nil
  then show ?case by (auto simp: ret_def)
next
  case (Cons i rest)
  from Cons.prems show ?case
  proof (cases rule: probe_Cons_cases)
    case (raised e new)
    then show ?thesis by simp
  next
    case (adopted f)
    then show ?thesis by (cases rule: configure_cases) simp_all
  next
    case closed
    from Cons.IH [OF this] show ?thesis by simp
  next
    case (unreadable ok fr)
    from Cons.IH [OF this(2)] show ?thesis by simp
  qed
qed

lemma probe_raised:
  "probe d idxs s = (r, s') \<Longrightarrow>
     \<exists>new. trace s' = trace s @ new \<and>
       raised_by new = (case r of Inl e \<Rightarrow> Some e | Inr b \<Rightarrow> None)"
proof (induction idxs arbitrary: s)
  case Nil
  then show ?case by (auto simp: ret_def)
next
  case (Cons i rest)
  from Cons.prems show ?case
  proof (cases rule: probe_Cons_cases)
    case (raised e new)
    then show ?thesis by simp
  next
    case (adopted f)
    then show ?thesis
    proof (cases rule: configure_cases)
      case (configured b1 b2 b3 b4)
      then show ?thesis by simp
    next
      case (set_raised e new)
      then show ?thesis by (simp add: raised_by_append)
    qed
  next
    case closed
    from Cons.IH [OF this] show ?thesis by (auto simp: raised_by_append)
  next
    case (unreadable ok fr)
    from Cons.IH [OF this(2)] show ?thesis by (auto simp: raised_by_append)
  qed
qed

lemma create_error_image_well_formed: "well_formed (create_error_image msg)"
  unfolding create_error_image_def
  by (simp add: draw_lines_drawn [where n = 0] zeros_def well_formed_def)

lemma initialize_camera_fresh:
  assumes "camera s = None" "initialize_camera d s = (r, s')"
  shows "is_running s' = is_running s \<and> last_frame s' = last_frame s \<and>
         (case raised_by (new_events s s') of
            Some e \<Rightarrow>
              r = Inr False \<and>
              error_message s' = Some (''Camera initialization error: '' @ str e)
          | None \<Rightarrow>
              (r = Inr True \<and> error_message s' = None \<and> camera s' \<noteq> None) \<or>
              (r = Inr False \<and> error_message s' = Some no_camera_message \<and> camera s' = None))"
proof -
  obtain r1 s1 where p: "probe d [0, 1, 2] s = (r1, s1)" by (cases "probe d [0, 1, 2] s")
  from probe_raised [OF p] obtain new where
    n: "trace s1 = trace s @ new" "raised_by new = (case r1 of Inl e \<Rightarrow> Some e | Inr b \<Rightarrow> None)"
    by blast
  from assms p have t: "trace s' = trace s1"
    by (auto simp: initialize_camera_def split: sum.splits bool.splits)
  have ne: "new_events s s' = new"
    using n(1) t by (simp add: new_events_def)
  from probe_fields [OF p] assms p n(2) show ?thesis
    unfolding ne
    by (auto simp: initialize_camera_def split: sum.splits bool.splits)
qed

lemma initialize_camera_held:
  assumes "camera s = Some h" "initialize_camera d s = (r, s')"
  shows "s' = s\<lparr>trace := trace s @ [EvIsOpened h r]\<rparr> \<and> r = dev_isOpened d (trace s) h"
  using assms by (auto simp: initialize_camera_def call_defs log_def)

lemma start_body_effect:
  assumes "start_body d s = (r, s')"
  shows "camera s' = camera s \<and> is_running s' = is_running s \<and>
         error_message s' = error_message s \<and>
         (case r of
            Inl e \<Rightarrow> last_frame s' = last_frame s
          | Inr img \<Rightarrow>
              (img = create_error_image ''Camera opened but cannot read frames'' \<and>
               last_frame s' = last_frame s) \<or>
              (last_frame s' = img \<and>
               (\<exists>t h ok f. dev_read d t h = Inr (ok, Some f) \<and> cvtColor_BGR2RGB d f = Inr img)))"
  using assms
  by (auto simp: start_body_def call_defs log_def split: option.splits sum.splits prod.splits
      if_splits)

section \<open>The error message\<close>

lemma poll_keeps_error_message:
  "error_message (snd (get_webcam_frame d s)) = error_message s"
proof (cases "is_running s \<and> camera s \<noteq> None")
  case False
  then show ?thesis by (auto simp: get_webcam_frame_def)
next
  case True
  then obtain h where h: "is_running s" "camera s = Some h" by auto
  obtain img s' where p: "get_webcam_frame d s = (img, s')" by (cases "get_webcam_frame d s")
  from poll_running_effect [OF h p] p show ?thesis by auto
qed

text \<open>
  C3, as stated, fails: on the sample device whose third read fails, the poll that meets the
  failed read returns the "Failed to read frame from camera" image and the error message is
  still None.
\<close>

theorem error_message_not_set_by_failed_read:
  "last (new_events flaky_started flaky_failed) = EvRead 0 (Inr (False, None)) \<and>
   fst (get_webcam_frame flaky_device flaky_started) =
     create_error_image ''Failed to read frame from camera'' \<and>
   error_message flaky_failed = None"
  by code_simp

text \<open>
  C3, amended. The error message is written by acquisition only. A poll and a stop leave it
  as it was. A start entered with a handle held leaves it as it was, whether the handle
  reports open or not and whether the read that follows fails or not. A start entered
  without a handle ends with the message acquisition left, whatever the read that follows
  does, and acquisition leaves: when one of its device calls raised an exception e, a
  reported failure and the text "Camera initialization error: " followed by the text of e;
  when none raised, either a reported success and no message, or a reported failure and the
  fixed message that lists the four causes.
\<close>

theorem error_message_written_by_acquisition_only:
  "error_message (snd (get_webcam_frame d s)) = error_message s \<and>
   error_message (snd (stop_webcam d s)) = error_message s \<and>
   (camera s \<noteq> None \<longrightarrow> error_message (snd (start_webcam d s)) = error_message s) \<and>
   (camera s = None \<longrightarrow>
      (let acq = initialize_camera d (s\<lparr>is_running := True\<rparr>)
       in error_message (snd (start_webcam d s)) = error_message (snd acq) \<and>
          (case raised_by (new_events s (snd acq)) of
             Some e \<Rightarrow>
               fst acq = Inr False \<and>
               error_message (snd acq) = Some (''Camera initialization error: '' @ str e)
           | None \<Rightarrow>
               (fst acq = Inr True \<and> error_message (snd acq) = None) \<or>
               (fst acq = Inr False \<and> error_message (snd acq) = Some no_camera_message))))"
proof -
  let ?s0 = "s\<lparr>is_running := True\<rparr>"
  obtain r s1 where i: "initialize_camera d ?s0 = (r, s1)"
    by (cases "initialize_camera d ?s0")
  obtain r2 s2 where b: "start_body d s1 = (r2, s2)" by (cases "start_body d s1")
  have st: "error_message (snd (start_webcam d s)) = error_message s1"
    using i b start_body_effect [OF b]
    by (auto simp: start_webcam_def split: sum.splits bool.splits)
  have held: "camera s \<noteq> None \<longrightarrow> error_message s1 = error_message s"
  proof
    assume "camera s \<noteq> None"
    then obtain h where "camera ?s0 = Some h" by auto
    from initialize_camera_held [OF this i] show "error_message s1 = error_message s" by simp
  qed
  have ne: "new_events s s1 = new_events ?s0 s1" by (simp add: new_events_def)
  have fresh: "camera s = None \<longrightarrow>
      (case raised_by (new_events s s1) of
         Some e \<Rightarrow> r = Inr False \<and> error_message s1 = Some (''Camera initialization error: '' @ str e)
       | None \<Rightarrow>
           (r = Inr True \<and> error_message s1 = None) \<or>
           (r = Inr False \<and> error_message s1 = Some no_camera_message))"
  proof
    assume "camera s = None"
    then have "camera ?s0 = None" by simp
    from initialize_camera_fresh [OF this i]
    show "case raised_by (new_events s s1) of
         Some e \<Rightarrow> r = Inr False \<and> error_message s1 = Some (''Camera initialization error: '' @ str e)
       | None \<Rightarrow>
           (r = Inr True \<and> error_message s1 = None) \<or>
           (r = Inr False \<and> error_message s1 = Some no_camera_message)"
      unfolding ne by (auto split: option.splits)
  qed
  show ?thesis
    using poll_keeps_error_message st held fresh i
    by (simp add: stop_webcam_def Let_def release_snd split: option.splits)
qed

theorem error_message_written_by_acquisition_only_witness:
  "camera initial_state = None \<and>
   raised_by (new_events initial_state
     (snd (initialize_camera no_device (initial_state\<lparr>is_running := True\<rparr>)))) = None \<and>
   fst (initialize_camera no_device (initial_state\<lparr>is_running := True\<rparr>)) = Inr False \<and>
   error_message (snd (start_webcam no_device initial_state)) = Some no_camera_message \<and>
   raised_by (new_events initial_state
     (snd (initialize_camera open_raises_device (initial_state\<lparr>is_running := True\<rparr>)))) =
     Some (Exn ''backend failure'') \<and>
   error_message (snd (start_webcam open_raises_device initial_state)) =
     Some ''Camera initialization error: backend failure'' \<and>
   fst (initialize_camera second_device (initial_state\<lparr>is_running := True\<rparr>)) = Inr True \<and>
   error_message (snd (start_webcam second_device initial_state)) = None \<and>
   camera second_started \<noteq> None \<and>
   error_message (snd (start_webcam second_device second_started)) = error_message second_started"
proof -
  have a: "camera initial_state = None" by code_simp
  have b: "raised_by (new_events initial_state
     (snd (initialize_camera no_device (initial_state\<lparr>is_running := True\<rparr>)))) = None"
    by code_simp
  have c: "fst (initialize_camera no_device (initial_state\<lparr>is_running := True\<rparr>)) = Inr False"
    by code_simp
  have e: "raised_by (new_events initial_state
     (snd (initialize_camera open_raises_device (initial_state\<lparr>is_running := True\<rparr>)))) =
     Some (Exn ''backend failure'')"
    by code_simp
  have f: "fst (initialize_camera second_device (initial_state\<lparr>is_running := True\<rparr>)) = Inr True"
    by code_simp
  have g: "camera second_started \<noteq> None" by code_simp
  have k: "error_message (snd (initialize_camera second_device (initial_state\<lparr>is_running := True\<rparr>)))
      = None"
    by code_simp
  from error_message_written_by_acquisition_only [of no_device initial_state]
    error_message_written_by_acquisition_only [of open_raises_device initial_state]
    error_message_written_by_acquisition_only [of second_device initial_state]
    error_message_written_by_acquisition_only [of second_device second_started] a b c e f g k
  show ?thesis by (simp add: Let_def)
qed

section \<open>A failed start\<close>

text \<open>
  C4. The property settings raise on the sample device \<open>set_raises_device\<close>, whose index 0
  opens and delivers frames. Started from the initial state, acquisition reports failure and
  start returns the image of "Camera initialization error: property not supported"; the
  handle adopted before the settings is still held and was never released, and the next poll
  reads from it and returns a camera frame, not the "Camera not initialized" image.
\<close>

theorem failed_start_may_hold_handle:
  "fst (initialize_camera set_raises_device (initial_state\<lparr>is_running := True\<rparr>)) = Inr False \<and>
   fst (start_webcam set_raises_device initial_state) =
     Inr (create_error_image ''Camera initialization error: property not supported'') \<and>
   is_running (snd (start_webcam set_raises_device initial_state)) \<and>
   camera (snd (start_webcam set_raises_device initial_state)) = Some 0 \<and>
   releases (trace (snd (start_webcam set_raises_device initial_state))) = [] \<and>
   fst (get_webcam_frame set_raises_device (snd (start_webcam set_raises_device initial_state))) =
     sample_frame 480 640 7 \<and>
   sample_frame 480 640 7 \<noteq> create_error_image ''Camera not initialized''"
  by code_simp

section \<open>Every call returns an image\<close>

lemma poll_well_formed:
  assumes wf: "frames_well_formed d" "well_formed (last_frame s)"
    and p: "get_webcam_frame d s = (img, s')"
  shows "well_formed img \<and> well_formed (last_frame s')"
proof (cases "is_running s \<and> camera s \<noteq> None")
  case False
  with wf p show ?thesis
    by (auto simp: get_webcam_frame_def create_error_image_well_formed split: if_splits)
next
  case True
  then obtain h where h: "is_running s" "camera s = Some h" by auto
  from poll_running_effect [OF h p] obtain new lf r where
    a: "s' = s\<lparr>trace := trace s @ new, last_frame := lf\<rparr>"
       "img = (case r of Inl e \<Rightarrow> create_error_image (''Error getting webcam frame: '' @ str e)
              | Inr i \<Rightarrow> i)"
       "(\<exists>x. last new = EvRead h (Inr x) \<and> (\<exists>t. dev_read d t h = Inr x) \<and>
             (r, lf) = poll_outcome d (last_frame s) x) \<or>
        ((\<forall>x. last new \<noteq> EvRead h (Inr x)) \<and> (\<exists>e. r = Inl e) \<and> lf = last_frame s)"
    by blast
  from a(3) show ?thesis
  proof
    assume "\<exists>x. last new = EvRead h (Inr x) \<and> (\<exists>t. dev_read d t h = Inr x) \<and>
             (r, lf) = poll_outcome d (last_frame s) x"
    then obtain ok fr t where x: "dev_read d t h = Inr (ok, fr)"
      "(r, lf) = poll_outcome d (last_frame s) (ok, fr)" by auto
    show ?thesis
    proof (cases "ok \<and> fr \<noteq> None")
      case False
      with x(2) a wf show ?thesis
        by (auto simp: poll_outcome_def create_error_image_well_formed)
    next
      case True
      then obtain f where f: "fr = Some f" "ok" by auto
      show ?thesis
      proof (cases "cvtColor_BGR2RGB d f")
        case (Inl e)
        with x(2) f a wf show ?thesis
          by (auto simp: poll_outcome_def create_error_image_well_formed)
      next
        case (Inr g)
        with x(1) f wf(1) have "well_formed g"
          unfolding frames_well_formed_def by blast
        with Inr x(2) f a show ?thesis
          by (auto simp: poll_outcome_def)
      qed
    qed
  next
    assume "(\<forall>x. last new \<noteq> EvRead h (Inr x)) \<and> (\<exists>e. r = Inl e) \<and> lf = last_frame s"
    with a wf show ?thesis by (auto simp: create_error_image_well_formed)
  qed
qed

lemma initialize_camera_result:
  assumes "initialize_camera d s = (r, s')"
  shows "last_frame s' = last_frame s \<and>
         (case r of
            Inr b \<Rightarrow> True
          | Inl e \<Rightarrow> (case camera s of None \<Rightarrow> False | Some h \<Rightarrow> isl (dev_isOpened d (trace s) h)))"
proof (cases "camera s")
  case None
  from initialize_camera_fresh [OF None assms] show ?thesis
    by (auto simp: None split: option.splits)
next
  case (Some h)
  from initialize_camera_held [OF Some assms] show ?thesis
    by (auto simp: Some split: sum.splits)
qed

lemma start_result:
  assumes "start_webcam d s = (r, s')"
  shows "(case r of
            Inr img \<Rightarrow> True
          | Inl e \<Rightarrow> (case camera s of None \<Rightarrow> False | Some h \<Rightarrow> isl (dev_isOpened d (trace s) h)))"
proof -
  let ?s0 = "s\<lparr>is_running := True\<rparr>"
  obtain r1 s1 where i: "initialize_camera d ?s0 = (r1, s1)"
    by (cases "initialize_camera d ?s0")
  from initialize_camera_result [OF i] assms i show ?thesis
    by (cases "camera s") (auto simp: start_webcam_def split: sum.splits bool.splits prod.splits)
qed

lemma start_well_formed:
  assumes wf: "frames_well_formed d" "well_formed (last_frame s)"
    and p: "start_webcam d s = (r, s')"
  shows "(case r of Inl e \<Rightarrow> True | Inr img \<Rightarrow> well_formed img) \<and> well_formed (last_frame s')"
proof -
  let ?s0 = "s\<lparr>is_running := True\<rparr>"
  obtain r1 s1 where i: "initialize_camera d ?s0 = (r1, s1)"
    by (cases "initialize_camera d ?s0")
  from initialize_camera_result [OF i]
  have lf1: "last_frame s1 = last_frame s" by simp
  show ?thesis
  proof (cases "r1 = Inr True")
    case False
    with i p lf1 wf show ?thesis
      by (auto simp: start_webcam_def create_error_image_well_formed split: sum.splits bool.splits)
  next
    case t: True
    obtain r2 s2 where b: "start_body d s1 = (r2, s2)" by (cases "start_body d s1")
    from start_body_effect [OF b] wf lf1
    have "well_formed (last_frame s2) \<and> (\<forall>img. r2 = Inr img \<longrightarrow> well_formed img)"
      unfolding frames_well_formed_def
      by (cases r2) (auto simp: create_error_image_well_formed)
    with i p t b show ?thesis
      by (cases r2) (auto simp: start_webcam_def create_error_image_well_formed)
  qed
qed

lemma step_well_formed:
  assumes "frames_well_formed d" "well_formed (last_frame s)"
    and "step d x s = (r, s')"
  shows "(case r of Inl e \<Rightarrow> True | Inr img \<Rightarrow> well_formed img) \<and> well_formed (last_frame s')"
proof (cases x)
  case Start
  with assms start_well_formed show ?thesis by simp
next
  case Stop
  with assms show ?thesis
    by (auto simp: stop_webcam_def Let_def release_snd split: option.splits)
next
  case Poll
  obtain img s1 where p: "get_webcam_frame d s = (img, s1)" by (cases "get_webcam_frame d s")
  from poll_well_formed [OF assms(1,2) p] p Poll assms(3) show ?thesis by auto
qed

lemma step_is_image:
  assumes "\<not> (x = Start \<and>
             (case camera s of None \<Rightarrow> False | Some h \<Rightarrow> isl (dev_isOpened d (trace s) h)))"
  shows "is_image (fst (step d x s))"
proof (cases x)
  case Start
  obtain r s' where p: "start_webcam d s = (r, s')" by (cases "start_webcam d s")
  from start_result [OF p] assms Start p show ?thesis
    by (cases r) auto
next
  case Stop
  then show ?thesis by (simp split: prod.splits)
next
  case Poll
  then show ?thesis by (simp split: prod.splits)
qed

lemma run_is_image:
  "\<not> held_isOpened_raises d ops s \<Longrightarrow> list_all is_image (fst (run d ops s))"
proof (induction ops arbitrary: s)
  case Nil
  show ?case by simp
next
  case (Cons x xs)
  obtain r s1 where st: "step d x s = (r, s1)" by (cases "step d x s")
  obtain rs s2 where rn: "run d xs s1 = (rs, s2)" by (cases "run d xs s1")
  from Cons.prems st have a: "is_image r" and b: "\<not> held_isOpened_raises d xs s1"
    using step_is_image [where x = x and s = s and d = d] by auto
  from Cons.IH [OF b] a st rn show ?case by simp
qed

lemma run_well_formed:
  "frames_well_formed d \<Longrightarrow> well_formed (last_frame s) \<Longrightarrow>
     list_all (\<lambda>r. case r of Inl e \<Rightarrow> True | Inr img \<Rightarrow> well_formed img) (fst (run d ops s))"
proof (induction ops arbitrary: s)
  case Nil
  show ?case by simp
next
  case (Cons x xs)
  obtain r s1 where st: "step d x s = (r, s1)" by (cases "step d x s")
  from step_well_formed [OF Cons.prems st]
  have a: "case r of Inl e \<Rightarrow> True | Inr img \<Rightarrow> well_formed img"
    and b: "well_formed (last_frame s1)" by simp_all
  obtain rs s2 where rn: "run d xs s1 = (rs, s2)" by (cases "run d xs s1")
  from Cons.IH [OF Cons.prems(1) b] a st rn show ?case by simp
qed

text \<open>
  The call of isOpened on the last line of initialize_camera is the one device call outside
  a \<^verbatim>\<open>try\<close>: on the sample device that stops answering it once a handle is held, a
  second start raises.
\<close>

lemma start_on_held_handle_may_raise:
  "fst (run unplugged_device [Start, Start] initial_state) =
     [Inr (sample_frame 480 640 7), Inl (Exn ''device unplugged'')] \<and>
   held_isOpened_raises unplugged_device [Start, Start] initial_state"
  by code_simp

text \<open>
  C8, as stated, fails: the device that delivers 1280x720 frames makes start return a
  720-row, 1280-column image.
\<close>

theorem wide_frame_returned:
  "fst (start_webcam wide_device initial_state) = Inr (sample_frame 720 1280 1) \<and>
   \<not> well_formed (sample_frame 720 1280 1)"
  by code_simp

text \<open>
  C8, amended. For every sequence of start, stop and poll calls, every environment and every
  state: unless some start of the sequence is entered with a handle held on which isOpened
  raises, every call returns an image and none raises, whatever open, isOpened during
  probing, read, get, set, release and the colour conversion do. Whether or not a call
  raises, every image returned is a 640x480x3 buffer provided the last good frame is one at
  the beginning and every frame a read delivers is converted to one.
\<close>

theorem every_call_returns_an_image:
  "(\<not> held_isOpened_raises d ops s \<longrightarrow> list_all is_image (fst (run d ops s))) \<and>
   (frames_well_formed d \<longrightarrow> well_formed (last_frame s) \<longrightarrow>
      list_all (\<lambda>r. case r of Inl e \<Rightarrow> True | Inr img \<Rightarrow> well_formed img) (fst (run d ops s)))"
  using run_is_image run_well_formed by blast

theorem every_call_returns_an_image_witness:
  "\<not> held_isOpened_raises wide_device [Start, Poll, Start] initial_state \<and>
   list_all is_image (fst (run wide_device [Start, Poll, Start] initial_state)) \<and>
   \<not> held_isOpened_raises unsteady_device [Start, Poll, Start, Stop] initial_state \<and>
   list_all is_image (fst (run unsteady_device [Start, Poll, Start, Stop] initial_state)) \<and>
   \<not> held_isOpened_raises raising_device [Start, Start, Poll, Stop, Poll, Start] initial_state \<and>
   frames_well_formed raising_device \<and> well_formed (last_frame initial_state) \<and>
   list_all is_image
     (fst (run raising_device [Start, Start, Poll, Stop, Poll, Start] initial_state)) \<and>
   list_all (\<lambda>r. case r of Inl e \<Rightarrow> True | Inr img \<Rightarrow> well_formed img)
     (fst (run raising_device [Start, Start, Poll, Stop, Poll, Start] initial_state)) \<and>
   fst (run raising_device [Start, Start, Poll, Stop, Poll, Start] initial_state) =
     [Inr (sample_frame 480 640 7),
      Inr (create_error_image ''Error reading from camera: device lost''),
      Inr (create_error_image
             ''Error getting webcam frame: cannot convert float infinity to integer''),
      Inr (sample_frame 480 640 7),
      Inr (sample_frame 480 640 7),
      Inr (create_error_image ''Camera initialization error: device lost'')] \<and>
   fst (run unsteady_device [Start, Poll, Start, Stop] initial_state) =
     [Inr (create_error_image ''Camera initialization error: not ready''),
      Inr (create_error_image ''Camera not initialized''),
      Inr (create_error_image ''Camera initialization error: not ready''),
      Inr (last_frame initial_state)]"
proof -
  have a: "\<not> held_isOpened_raises wide_device [Start, Poll, Start] initial_state" by code_simp
  have b: "\<not> held_isOpened_raises unsteady_device [Start, Poll, Start, Stop] initial_state"
    by code_simp
  have c: "\<not> held_isOpened_raises raising_device [Start, Start, Poll, Stop, Poll, Start]
      initial_state"
    by code_simp
  have f: "frames_well_formed raising_device"
    by (auto simp: frames_well_formed_def raising_device_def sample_env_def sample_frame_def
        well_formed_def split: if_splits)
  have g: "well_formed (last_frame initial_state)" by code_simp
  have e1: "fst (run raising_device [Start, Start, Poll, Stop, Poll, Start] initial_state) =
     [Inr (sample_frame 480 640 7),
      Inr (create_error_image ''Error reading from camera: device lost''),
      Inr (create_error_image
             ''Error getting webcam frame: cannot convert float infinity to integer''),
      Inr (sample_frame 480 640 7),
      Inr (sample_frame 480 640 7),
      Inr (create_error_image ''Camera initialization error: device lost'')]"
    by code_simp
  have e2: "fst (run unsteady_device [Start, Poll, Start, Stop] initial_state) =
     [Inr (create_error_image ''Camera initialization error: not ready''),
      Inr (create_error_image ''Camera not initialized''),
      Inr (create_error_image ''Camera initialization error: not ready''),
      Inr (last_frame initial_state)]"
    by code_simp
  note t1 = every_call_returns_an_image [of wide_device "[Start, Poll, Start]" initial_state]
  note t2 = every_call_returns_an_image
    [of unsteady_device "[Start, Poll, Start, Stop]" initial_state]
  note t3 = every_call_returns_an_image
    [of raising_device "[Start, Start, Poll, Stop, Poll, Start]" initial_state]
  from t1 a have k1: "list_all is_image (fst (run wide_device [Start, Poll, Start] initial_state))"
    by blast
  from t2 b
  have k2: "list_all is_image (fst (run unsteady_device [Start, Poll, Start, Stop] initial_state))"
    by blast
  from t3 c have k3: "list_all is_image
     (fst (run raising_device [Start, Start, Poll, Stop, Poll, Start] initial_state))"
    by blast
  from t3 f g have k4: "list_all (\<lambda>r. case r of Inl e \<Rightarrow> True | Inr img \<Rightarrow> well_formed img)
     (fst (run raising_device [Start, Start, Poll, Stop, Poll, Start] initial_state))"
    by blast
  show ?thesis
    by (intro conjI) (rule a b c f g k1 k2 k3 k4 e1 e2)+
qed

end
